theory Spec2Isabelle
  imports Main "HOL-Library.Finite_Map"
begin

section \<open>Entity decoding: \<^verbatim>\<open>go/internal/feast/model/entity.go\<close>\<close>

text \<open>
  The file declares the runtime \<^verbatim>\<open>Entity\<close> struct and one function,
  \<^verbatim>\<open>NewEntityFromProto\<close>, which builds an \<^verbatim>\<open>Entity\<close> from a protobuf
  \<^verbatim>\<open>core.Entity\<close> message. Go strings are byte sequences and are modelled by
  \<^typ>\<open>string\<close>; Go maps are finite and are modelled by \<^typ>\<open>('k, 'v) fmap\<close>,
  whose equality is equality of contents.
\<close>

subsection \<open>Data model\<close>

text \<open>
  Modelled from the spec: the enum \<^verbatim>\<open>types.ValueType_Enum\<close> is declared in generated
  protobuf code that the package imports. The function never inspects a value type, it
  only copies it, so every definition below is polymorphic in the type \<open>'vt\<close> of
  value-type tags. The datatype gives the tags that the specification names, for use in
  concrete evaluations.
\<close>

datatype ValueType_Enum =
  UNSPECIFIED | INT32 | INT64 | STRING | BYTES | DOUBLE | FLOAT | BOOL

text \<open>
  Modelled from the spec: the protobuf messages read through \<^verbatim>\<open>proto.Spec\<close> are
  declared in generated code that the package imports. The specification lists the four
  fields that are read:
  \<^verbatim>\<open>name\<close>, \<^verbatim>\<open>join_key\<close>, \<^verbatim>\<open>value_type\<close> and \<^verbatim>\<open>join_keys\<close>, the last one
  a mapping from a join-key name to a message carrying a \<^verbatim>\<open>value_type\<close>, so that
  every entry of the mapping holds a message. Go can hold a nil entry as well; the
  function on such messages is \<open>NewEntityFromProto_go\<close> below, which is this one
  wherever every entry is present. The field names are the ones the Go source uses. Records are extensible: the \<open>more\<close> part of an
  \<open>EntitySpec\<close> or \<open>core_Entity\<close> scheme stands for every other field the messages have.
  A nil Go map has length 0 and ranges over nothing, so it is \<^term>\<open>fmempty\<close> here.
\<close>

record 'vt JoinKeySpec =
  ValueType :: 'vt

record 'vt EntitySpec =
  Name :: string
  JoinKey :: string
  ValueType :: 'vt
  JoinKeys :: "(string, 'vt JoinKeySpec) fmap"

text \<open>
  \<^verbatim>\<open>proto\<close> is a pointer and so is its \<^verbatim>\<open>Spec\<close> field, as message-typed fields of
  generated Go code are: either may be nil, which is \<^term>\<open>None\<close>.
\<close>

record ('vt, 's) core_Entity =
  Spec :: "('vt, 's) EntitySpec_scheme option"

text \<open>The struct \<^verbatim>\<open>Entity\<close> of the source, lines 8 to 12.\<close>

record 'vt Entity =
  Name :: string
  JoinKey :: string
  JoinKeys :: "(string, 'vt) fmap"

text \<open>
  The function has no error result. The one way it can fail is a run-time panic of Go:
  reading a field through a nil pointer or, for a map assignment in general, assigning
  to an entry of a nil map.
\<close>

datatype panic = NilPointerDereference | NilMapAssignment

subsection \<open>Operations\<close>

text \<open>The builtin \<^verbatim>\<open>len\<close> on a map: its number of entries.\<close>

definition len :: "('k, 'v) fmap \<Rightarrow> nat" where
  "len m = fcard (fmdom m)"

text \<open>
  Go leaves the order in which \<^verbatim>\<open>range\<close> visits a map unspecified, and visits every entry
  once. The sequence of entries delivered by one execution of the \<^verbatim>\<open>range\<close> clause is
  therefore a parameter of the model: \<open>ranges_over kvs m\<close> says that \<open>kvs\<close> lists
  the entries of \<open>m\<close>, each key once, in some order.
\<close>

definition ranges_over :: "('k \<times> 'v) list \<Rightarrow> ('k, 'v) fmap \<Rightarrow> bool" where
  "ranges_over kvs m \<longleftrightarrow> distinct (map fst kvs) \<and> fmap_of_list kvs = m"

text \<open>
  The body of the loop at lines 24 to 26, run over the delivered entries. The state of the
  loop is the entity under construction. Every delivered entry is a message here, so the
  read of line 25 succeeds; \<open>range_JoinKeys_go\<close> below has the nil entries.
\<close>

fun range_JoinKeys ::
  "(string \<times> 'vt JoinKeySpec) list \<Rightarrow> 'vt Entity \<Rightarrow> 'vt Entity" where
  "range_JoinKeys [] entity = entity"
| "range_JoinKeys ((joinKeyName, joinKeySpec) # rest) entity =
     range_JoinKeys rest
       (entity\<lparr>Entity.JoinKeys :=
          fmupd joinKeyName (JoinKeySpec.ValueType joinKeySpec) (Entity.JoinKeys entity)\<rparr>)"

text \<open>
  \<^verbatim>\<open>NewEntityFromProto\<close>, lines 14 to 33. The first argument is the sequence of entries
  that \<^verbatim>\<open>range proto.Spec.JoinKeys\<close> delivers in this execution.
\<close>

definition NewEntityFromProto ::
  "(string \<times> 'vt JoinKeySpec) list \<Rightarrow> ('vt, 's, 'm) core_Entity_scheme option
     \<Rightarrow> panic + 'vt Entity" where
  "NewEntityFromProto kvs proto =
     (case proto of
        None \<Rightarrow> Inl NilPointerDereference
      | Some p \<Rightarrow>
          (case Spec p of
             None \<Rightarrow> Inl NilPointerDereference
           | Some spec \<Rightarrow>
               (let entity = \<lparr>Entity.Name = EntitySpec.Name spec,
                              JoinKey = EntitySpec.JoinKey spec,
                              JoinKeys = fmempty\<rparr>
                in if len (EntitySpec.JoinKeys spec) > 0
                   then Inr (range_JoinKeys kvs entity)
                   else Inr (entity\<lparr>Entity.JoinKeys :=
                               fmupd (EntitySpec.JoinKey spec) (EntitySpec.ValueType spec)
                                 (Entity.JoinKeys entity)\<rparr>))))"

subsection \<open>The same function on a store\<close>

text \<open>
  In Go the message, its specification, the entity and the two maps are objects in
  memory, reached through pointers and map references, and the function writes to memory:
  it allocates a map and an \<^verbatim>\<open>Entity\<close> and assigns to entries of the map that the
  entity refers to. To state what the function leaves untouched, the objects are placed in
  a store. Go pointers are typed, so the store has one heap for each type of object; the
  addresses below \<open>lim\<close> are the allocated ones. A struct in the store holds its string
  and enum fields by value and its pointer and map fields as addresses, \<^term>\<open>None\<close>
  for nil.
\<close>

type_synonym addr = nat

record core_Entity_obj =
  Spec_ptr :: "addr option"

record 'vt EntitySpec_obj =
  spec_Name :: string
  spec_JoinKey :: string
  spec_ValueType :: 'vt
  spec_JoinKeys :: "addr option"

record Entity_obj =
  entity_Name :: string
  entity_JoinKey :: string
  entity_JoinKeys :: "addr option"

record 'vt store =
  core_Entity_heap :: "addr \<Rightarrow> core_Entity_obj"
  EntitySpec_heap :: "addr \<Rightarrow> 'vt EntitySpec_obj"
  JoinKeySpec_maps :: "addr \<Rightarrow> (string, 'vt JoinKeySpec) fmap"
  Entity_heap :: "addr \<Rightarrow> Entity_obj"
  ValueType_maps :: "addr \<Rightarrow> (string, 'vt) fmap"
  lim :: addr

text \<open>Reading a map through a reference: a nil map reads as the empty map.\<close>

definition read_map :: "(addr \<Rightarrow> ('k, 'v) fmap) \<Rightarrow> addr option \<Rightarrow> ('k, 'v) fmap" where
  "read_map heap r = (case r of None \<Rightarrow> fmempty | Some a \<Rightarrow> heap a)"

text \<open>\<^verbatim>\<open>make(map[string]types.ValueType_Enum)\<close>: a new, empty map at a fresh address.\<close>

definition make_map :: "'vt store \<Rightarrow> addr \<times> 'vt store" where
  "make_map h =
     (lim h, h\<lparr>ValueType_maps := (ValueType_maps h)(lim h := fmempty), lim := Suc (lim h)\<rparr>)"

text \<open>\<^verbatim>\<open>&Entity{...}\<close>: a new struct at a fresh address.\<close>

definition new_Entity :: "Entity_obj \<Rightarrow> 'vt store \<Rightarrow> addr \<times> 'vt store" where
  "new_Entity obj h =
     (lim h, h\<lparr>Entity_heap := (Entity_heap h)(lim h := obj), lim := Suc (lim h)\<rparr>)"

text \<open>
  \<^verbatim>\<open>entity.JoinKeys[k] = v\<close>: the map reference is read from the struct, and the map it
  refers to is updated in place.
\<close>

definition assign_JoinKeys :: "addr \<Rightarrow> string \<Rightarrow> 'vt \<Rightarrow> 'vt store \<Rightarrow> panic + 'vt store" where
  "assign_JoinKeys entity k v h =
     (case entity_JoinKeys (Entity_heap h entity) of
        None \<Rightarrow> Inl NilMapAssignment
      | Some m \<Rightarrow>
          Inr (h\<lparr>ValueType_maps := (ValueType_maps h)(m := fmupd k v (ValueType_maps h m))\<rparr>))"

fun range_JoinKeys_st ::
  "(string \<times> 'vt JoinKeySpec) list \<Rightarrow> addr \<Rightarrow> 'vt store \<Rightarrow> panic + 'vt store" where
  "range_JoinKeys_st [] entity h = Inr h"
| "range_JoinKeys_st ((joinKeyName, joinKeySpec) # rest) entity h =
     (case assign_JoinKeys entity joinKeyName (JoinKeySpec.ValueType joinKeySpec) h of
        Inl e \<Rightarrow> Inl e
      | Inr h' \<Rightarrow> range_JoinKeys_st rest entity h')"

text \<open>
  \<^verbatim>\<open>NewEntityFromProto\<close> on the store. The fields of the struct literal are evaluated
  first, the call of \<^verbatim>\<open>make\<close> last among them, and then the struct is allocated. The
  result is the address of the new entity and the store after the call.
\<close>

definition NewEntityFromProto_st ::
  "(string \<times> 'vt JoinKeySpec) list \<Rightarrow> addr option \<Rightarrow> 'vt store \<Rightarrow> panic + addr \<times> 'vt store" where
  "NewEntityFromProto_st kvs proto h =
     (case proto of
        None \<Rightarrow> Inl NilPointerDereference
      | Some p \<Rightarrow>
          (case Spec_ptr (core_Entity_heap h p) of
             None \<Rightarrow> Inl NilPointerDereference
           | Some s \<Rightarrow>
               (let name = spec_Name (EntitySpec_heap h s);
                    joinKey = spec_JoinKey (EntitySpec_heap h s);
                    (m, h1) = make_map h;
                    (entity, h2) =
                      new_Entity \<lparr>entity_Name = name, entity_JoinKey = joinKey,
                                  entity_JoinKeys = Some m\<rparr> h1
                in if len (read_map (JoinKeySpec_maps h2) (spec_JoinKeys (EntitySpec_heap h2 s))) > 0
                   then map_sum id (Pair entity) (range_JoinKeys_st kvs entity h2)
                   else map_sum id (Pair entity)
                          (assign_JoinKeys entity (spec_JoinKey (EntitySpec_heap h2 s))
                             (spec_ValueType (EntitySpec_heap h2 s)) h2))))"

text \<open>
  The values that the objects of a store stand for: the specification at an address, the
  message behind a pointer, and the entity at an address.
\<close>

definition spec_at :: "'vt store \<Rightarrow> addr \<Rightarrow> 'vt EntitySpec" where
  "spec_at h s =
     \<lparr>EntitySpec.Name = spec_Name (EntitySpec_heap h s),
      JoinKey = spec_JoinKey (EntitySpec_heap h s),
      ValueType = spec_ValueType (EntitySpec_heap h s),
      JoinKeys = read_map (JoinKeySpec_maps h) (spec_JoinKeys (EntitySpec_heap h s))\<rparr>"

definition proto_at :: "'vt store \<Rightarrow> addr option \<Rightarrow> ('vt, unit) core_Entity option" where
  "proto_at h proto =
     map_option (\<lambda>p. \<lparr>Spec = map_option (spec_at h) (Spec_ptr (core_Entity_heap h p))\<rparr>) proto"

definition entity_at :: "'vt store \<Rightarrow> addr \<Rightarrow> 'vt Entity" where
  "entity_at h entity =
     \<lparr>Entity.Name = entity_Name (Entity_heap h entity),
      JoinKey = entity_JoinKey (Entity_heap h entity),
      JoinKeys = read_map (ValueType_maps h) (entity_JoinKeys (Entity_heap h entity))\<rparr>"

subsection \<open>Nil entries of the mapping\<close>

text \<open>
  Modelled from the spec: the generated message types are declared outside the package.
  The fields are the four of the specification. In generated Go code a message-typed map
  value is a pointer, as a message-typed field is, so an entry of the mapping may be nil;
  line 25 reads \<^verbatim>\<open>joinKeySpec.ValueType\<close> through that pointer and panics when it is.
  The mapping type of the specification has no such entry and the records above cannot
  hold one: they are the messages in which every entry is present. To say for which
  arguments the function returns at all, the function is modelled once more on messages
  as Go has them, where an entry of the mapping is \<^term>\<open>None\<close> for nil.
\<close>

record 'vt EntitySpec_go =
  go_Name :: string
  go_JoinKey :: string
  go_ValueType :: 'vt
  go_JoinKeys :: "(string, 'vt JoinKeySpec option) fmap"

record 'vt core_Entity_go =
  go_Spec :: "'vt EntitySpec_go option"

text \<open>The loop at lines 24 to 26, with the read through the entry written out.\<close>

fun range_JoinKeys_go ::
  "(string \<times> 'vt JoinKeySpec option) list \<Rightarrow> 'vt Entity \<Rightarrow> panic + 'vt Entity" where
  "range_JoinKeys_go [] entity = Inr entity"
| "range_JoinKeys_go ((joinKeyName, joinKeySpec) # rest) entity =
     (case joinKeySpec of
        None \<Rightarrow> Inl NilPointerDereference
      | Some js \<Rightarrow>
          range_JoinKeys_go rest
            (entity\<lparr>Entity.JoinKeys :=
               fmupd joinKeyName (JoinKeySpec.ValueType js) (Entity.JoinKeys entity)\<rparr>))"

definition NewEntityFromProto_go ::
  "(string \<times> 'vt JoinKeySpec option) list \<Rightarrow> 'vt core_Entity_go option
     \<Rightarrow> panic + 'vt Entity" where
  "NewEntityFromProto_go kvs proto =
     (case proto of
        None \<Rightarrow> Inl NilPointerDereference
      | Some p \<Rightarrow>
          (case go_Spec p of
             None \<Rightarrow> Inl NilPointerDereference
           | Some spec \<Rightarrow>
               (let entity = \<lparr>Entity.Name = go_Name spec,
                              JoinKey = go_JoinKey spec,
                              JoinKeys = fmempty\<rparr>
                in if len (go_JoinKeys spec) > 0
                   then range_JoinKeys_go kvs entity
                   else Inr (entity\<lparr>Entity.JoinKeys :=
                               fmupd (go_JoinKey spec) (go_ValueType spec)
                                 (Entity.JoinKeys entity)\<rparr>))))"

text \<open>A mapping without a nil entry.\<close>

definition nil_free :: "('k, 'v option) fmap \<Rightarrow> bool" where
  "nil_free m \<longleftrightarrow> (\<forall>k. fmlookup m k \<noteq> Some None)"

text \<open>
  A message of the specification's type as Go has it: every entry is a pointer to its
  message. The same for a delivered sequence of entries and for the argument of the
  function.
\<close>

definition go_of_spec :: "('vt, 's) EntitySpec_scheme \<Rightarrow> 'vt EntitySpec_go" where
  "go_of_spec spec =
     \<lparr>go_Name = EntitySpec.Name spec, go_JoinKey = EntitySpec.JoinKey spec,
      go_ValueType = EntitySpec.ValueType spec,
      go_JoinKeys = fmmap Some (EntitySpec.JoinKeys spec)\<rparr>"

definition go_of_entries ::
  "(string \<times> 'vt JoinKeySpec) list \<Rightarrow> (string \<times> 'vt JoinKeySpec option) list" where
  "go_of_entries kvs = map (\<lambda>(k, js). (k, Some js)) kvs"

definition go_of_proto ::
  "('vt, 's, 'm) core_Entity_scheme option \<Rightarrow> 'vt core_Entity_go option" where
  "go_of_proto proto = map_option (\<lambda>p. \<lparr>go_Spec = map_option go_of_spec (Spec p)\<rparr>) proto"

subsection \<open>Concrete specifications\<close>

text \<open>
  The three scenarios of the specification's list of testable properties, and a fourth
  input in which the deprecated pair names a key of the new mapping with another type.
\<close>

definition scenario_A :: "ValueType_Enum EntitySpec" where
  "scenario_A =
     \<lparr>EntitySpec.Name = ''driver'', JoinKey = ''driver_id'', ValueType = INT64,
      JoinKeys = fmempty\<rparr>"

definition entries_B :: "(string \<times> ValueType_Enum JoinKeySpec) list" where
  "entries_B =
     [(''driver_id'', \<lparr>JoinKeySpec.ValueType = INT64\<rparr>),
      (''rider_id'', \<lparr>JoinKeySpec.ValueType = STRING\<rparr>)]"

definition scenario_B :: "ValueType_Enum EntitySpec" where
  "scenario_B =
     \<lparr>EntitySpec.Name = ''trip'', JoinKey = '''', ValueType = UNSPECIFIED,
      JoinKeys = fmap_of_list entries_B\<rparr>"

definition scenario_C :: "ValueType_Enum EntitySpec" where
  "scenario_C =
     \<lparr>EntitySpec.Name = '''', JoinKey = '''', ValueType = UNSPECIFIED,
      JoinKeys = fmempty\<rparr>"

definition scenario_collision :: "ValueType_Enum EntitySpec" where
  "scenario_collision =
     \<lparr>EntitySpec.Name = ''trip'', JoinKey = ''driver_id'', ValueType = STRING,
      JoinKeys = fmap_of_list entries_B\<rparr>"

text \<open>Scenario A without its name: an invalid specification, in the specification's terms.\<close>

definition scenario_unnamed :: "ValueType_Enum EntitySpec" where
  "scenario_unnamed =
     \<lparr>EntitySpec.Name = '''', JoinKey = ''driver_id'', ValueType = INT64,
      JoinKeys = fmempty\<rparr>"

text \<open>A non-nil \<^verbatim>\<open>core.Entity\<close> that carries the given specification and nothing else.\<close>

definition proto_of :: "('vt, 's) EntitySpec_scheme \<Rightarrow> ('vt, 's) core_Entity" where
  "proto_of spec = \<lparr>Spec = Some spec\<rparr>"

text \<open>
  The sequences that \<^verbatim>\<open>range\<close> may deliver in an execution on a given argument: an
  enumeration of the mapping of the specification. With a nil pointer the loop is never
  reached and nothing is asked of the sequence.
\<close>

definition may_deliver ::
  "('vt, 's, 'm) core_Entity_scheme option \<Rightarrow> (string \<times> 'vt JoinKeySpec) list \<Rightarrow> bool" where
  "may_deliver proto kvs =
     (case proto of
        None \<Rightarrow> True
      | Some p \<Rightarrow>
          (case Spec p of
             None \<Rightarrow> True
           | Some spec \<Rightarrow> ranges_over kvs (EntitySpec.JoinKeys spec)))"

text \<open>
  A store for scenario B. The message is at address 0, its specification at 1 and the
  mapping of the specification at 2. An entity decoded earlier, from scenario A, is at
  address 4, with its map at 3.
\<close>

definition store_B :: "ValueType_Enum store" where
  "store_B =
     \<lparr>core_Entity_heap = (\<lambda>_. \<lparr>Spec_ptr = None\<rparr>)(0 := \<lparr>Spec_ptr = Some 1\<rparr>),
      EntitySpec_heap =
        (\<lambda>_. \<lparr>spec_Name = '''', spec_JoinKey = '''', spec_ValueType = UNSPECIFIED,
               spec_JoinKeys = None\<rparr>)
        (1 := \<lparr>spec_Name = ''trip'', spec_JoinKey = '''', spec_ValueType = UNSPECIFIED,
                spec_JoinKeys = Some 2\<rparr>),
      JoinKeySpec_maps = (\<lambda>_. fmempty)(2 := fmap_of_list entries_B),
      Entity_heap =
        (\<lambda>_. \<lparr>entity_Name = '''', entity_JoinKey = '''', entity_JoinKeys = None\<rparr>)
        (4 := \<lparr>entity_Name = ''driver'', entity_JoinKey = ''driver_id'',
                entity_JoinKeys = Some 3\<rparr>),
      ValueType_maps = (\<lambda>_. fmempty)(3 := fmupd ''driver_id'' INT64 fmempty),
      lim = 5\<rparr>"

text \<open>
  A specification as Go can hold it, with a mapping of two entries of which the second
  is nil, and the entries in the order written.
\<close>

definition entries_nil :: "(string \<times> ValueType_Enum JoinKeySpec option) list" where
  "entries_nil =
     [(''driver_id'', Some \<lparr>JoinKeySpec.ValueType = INT64\<rparr>),
      (''rider_id'', None)]"

definition scenario_nil_entry :: "ValueType_Enum EntitySpec_go" where
  "scenario_nil_entry =
     \<lparr>go_Name = ''trip'', go_JoinKey = '''', go_ValueType = UNSPECIFIED,
      go_JoinKeys = fmap_of_list entries_nil\<rparr>"

section \<open>Properties\<close>

subsection \<open>Auxiliary facts\<close>

lemma len_pos_iff: "0 < len m \<longleftrightarrow> m \<noteq> fmempty"
proof -
  have "fmdom m = {||} \<longleftrightarrow> m = fmempty"
    by (metis fmdom_empty fmrestrict_fset_dom fmrestrict_fset_null)
  moreover have "0 < fcard (fmdom m) \<longleftrightarrow> fmdom m \<noteq> {||}"
    by (simp add: zero_less_iff_neq_zero)
  ultimately show ?thesis
    by (simp add: len_def)
qed

text \<open>Every map can be ranged over: the hypothesis \<open>ranges_over\<close> is never empty.\<close>

lemma ranges_over_exists: "\<exists>kvs. ranges_over kvs m"
proof (induction m)
  case fmempty
  have "ranges_over [] (fmempty :: ('a, 'b) fmap)"
    by (simp add: ranges_over_def)
  then show ?case ..
next
  case (fmupd k v m)
  then obtain kvs where d: "distinct (map fst kvs)" and m: "fmap_of_list kvs = m"
    by (auto simp: ranges_over_def)
  from fmupd.hyps m have "k \<notin> fst ` set kvs"
    by (metis fmlookup_of_list map_of_eq_None_iff)
  with d m have "ranges_over ((k, v) # kvs) (fmupd k v m)"
    by (simp add: ranges_over_def)
  then show ?case ..
qed

lemma ranges_over_Nil_iff: "ranges_over [] m \<longleftrightarrow> m = fmempty"
  by (auto simp: ranges_over_def)

text \<open>The loop writes the \<^verbatim>\<open>JoinKeys\<close> map of the entity and no other field.\<close>

lemma range_JoinKeys_Name:
  "Entity.Name (range_JoinKeys kvs entity) = Entity.Name entity"
  by (induction kvs entity rule: range_JoinKeys.induct) simp_all

lemma range_JoinKeys_JoinKey:
  "Entity.JoinKey (range_JoinKeys kvs entity) = Entity.JoinKey entity"
  by (induction kvs entity rule: range_JoinKeys.induct) simp_all

text \<open>
  What the loop leaves under a key \<open>k\<close>, when no key is delivered twice: the value type
  of the delivered entry for \<open>k\<close>, or else what was there before.
\<close>

lemma range_JoinKeys_lookup:
  "distinct (map fst kvs) \<Longrightarrow>
   fmlookup (Entity.JoinKeys (range_JoinKeys kvs entity)) k =
     (case map_of kvs k of
        None \<Rightarrow> fmlookup (Entity.JoinKeys entity) k
      | Some joinKeySpec \<Rightarrow> Some (JoinKeySpec.ValueType joinKeySpec))"
proof (induction kvs entity rule: range_JoinKeys.induct)
  case (1 entity)
  show ?case by simp
next
  case (2 joinKeyName joinKeySpec rest entity)
  from "2.prems" have fresh: "map_of rest joinKeyName = None"
    by (simp add: map_of_eq_None_iff)
  from "2.prems" have "distinct (map fst rest)" by simp
  with "2.IH" fresh show ?case
    by (auto split: option.splits)
qed

lemma range_JoinKeys_copies:
  assumes "ranges_over kvs m" and "Entity.JoinKeys entity = fmempty"
  shows "Entity.JoinKeys (range_JoinKeys kvs entity) = fmmap JoinKeySpec.ValueType m"
proof (rule fmap_ext)
  fix k
  from assms(1) have d: "distinct (map fst kvs)" and m: "fmlookup m = map_of kvs"
    by (auto simp: ranges_over_def fmlookup_of_list)
  show "fmlookup (Entity.JoinKeys (range_JoinKeys kvs entity)) k =
        fmlookup (fmmap JoinKeySpec.ValueType m) k"
    using range_JoinKeys_lookup [OF d, of entity k] assms(2) m
    by (simp split: option.splits)
qed

text \<open>The function on a non-nil message with a non-nil specification, branch by branch.\<close>

lemma NewEntityFromProto_new:
  assumes "Spec p = Some spec" and "EntitySpec.JoinKeys spec \<noteq> fmempty"
  shows "NewEntityFromProto kvs (Some p) =
           Inr (range_JoinKeys kvs
                  \<lparr>Entity.Name = EntitySpec.Name spec, JoinKey = EntitySpec.JoinKey spec,
                   JoinKeys = fmempty\<rparr>)"
  using assms by (simp add: NewEntityFromProto_def len_pos_iff)

lemma NewEntityFromProto_legacy:
  assumes "Spec p = Some spec" and "EntitySpec.JoinKeys spec = fmempty"
  shows "NewEntityFromProto kvs (Some p) =
           Inr \<lparr>Entity.Name = EntitySpec.Name spec, JoinKey = EntitySpec.JoinKey spec,
                JoinKeys = fmupd (EntitySpec.JoinKey spec) (EntitySpec.ValueType spec) fmempty\<rparr>"
  using assms by (simp add: NewEntityFromProto_def len_pos_iff)

lemma NewEntityFromProto_new_ranged:
  assumes "Spec p = Some spec" and "EntitySpec.JoinKeys spec \<noteq> fmempty"
    and "ranges_over kvs (EntitySpec.JoinKeys spec)"
  shows "NewEntityFromProto kvs (Some p) =
           Inr \<lparr>Entity.Name = EntitySpec.Name spec, JoinKey = EntitySpec.JoinKey spec,
                JoinKeys = fmmap JoinKeySpec.ValueType (EntitySpec.JoinKeys spec)\<rparr>"
proof -
  let ?e0 = "\<lparr>Entity.Name = EntitySpec.Name spec, JoinKey = EntitySpec.JoinKey spec,
              JoinKeys = fmempty\<rparr> :: 'a Entity"
  have "Entity.JoinKeys (range_JoinKeys kvs ?e0) =
          fmmap JoinKeySpec.ValueType (EntitySpec.JoinKeys spec)"
    using assms(3) by (rule range_JoinKeys_copies) simp
  then have "range_JoinKeys kvs ?e0 =
          \<lparr>Entity.Name = EntitySpec.Name spec, JoinKey = EntitySpec.JoinKey spec,
           JoinKeys = fmmap JoinKeySpec.ValueType (EntitySpec.JoinKeys spec)\<rparr>"
    by (simp add: range_JoinKeys_Name range_JoinKeys_JoinKey)
  with NewEntityFromProto_new [OF assms(1,2)] show ?thesis
    by simp
qed

lemma Spec_proto_of: "Spec (proto_of spec) = Some spec"
  by (simp add: proto_of_def)

text \<open>The entries of scenario B, delivered in the order written or in the other one.\<close>

lemma ranges_over_entries_B: "ranges_over entries_B (fmap_of_list entries_B)"
  by (simp add: ranges_over_def entries_B_def)

lemma ranges_over_rev_entries_B: "ranges_over (rev entries_B) (fmap_of_list entries_B)"
proof -
  have "fmap_of_list (rev entries_B) = fmap_of_list entries_B"
    by (rule fmap_ext) (auto simp: entries_B_def)
  then show ?thesis
    by (simp add: ranges_over_def entries_B_def)
qed

lemma entries_B_nonempty: "fmap_of_list entries_B \<noteq> fmempty"
  by (simp add: entries_B_def)

subsection \<open>Invalid specifications\<close>

text \<open>
  Claim C1, as stated: for every specification whose name is empty, or in which both the
  legacy join-key name and the join-keys mapping are empty, decoding fails with an
  \<^verbatim>\<open>InvalidSpecification\<close> error and constructs no entity.

  The source has no such error: the function returns \<^verbatim>\<open>*Entity\<close> alone and contains
  no check of the name or of the keys. Scenario C of the specification, in which the name,
  the legacy key and the mapping are all empty, is decoded into an entity whose one join
  key is the empty string.
\<close>

theorem C1_scenario_C_is_decoded:
  "EntitySpec.Name scenario_C = '''' \<and>
   EntitySpec.JoinKey scenario_C = '''' \<and>
   EntitySpec.JoinKeys scenario_C = fmempty \<and>
   NewEntityFromProto [] (Some (proto_of scenario_C)) =
     Inr \<lparr>Entity.Name = '''', JoinKey = '''', JoinKeys = fmupd '''' UNSPECIFIED fmempty\<rparr>"
  by (simp add: NewEntityFromProto_def proto_of_def scenario_C_def len_pos_iff)

text \<open>
  Claim C1, amended: for every specification whose name is empty, or in which both the
  legacy join-key name and the join-keys mapping are empty, decoding does not fail. It
  returns an entity that carries the name of the specification, empty or not, and, when
  the join-keys mapping is empty, whose join keys are the single entry from the legacy
  join-key name, empty or not, to the legacy value type.
\<close>

theorem C1_invalid_specification_is_decoded:
  assumes "Spec p = Some spec"
    and "EntitySpec.Name spec = '''' \<or>
         (EntitySpec.JoinKey spec = '''' \<and> EntitySpec.JoinKeys spec = fmempty)"
  shows "\<exists>entity. NewEntityFromProto kvs (Some p) = Inr entity \<and>
           Entity.Name entity = EntitySpec.Name spec \<and>
           (EntitySpec.JoinKeys spec = fmempty \<longrightarrow>
              Entity.JoinKeys entity =
                fmupd (EntitySpec.JoinKey spec) (EntitySpec.ValueType spec) fmempty)"
proof (cases "EntitySpec.JoinKeys spec = fmempty")
  case True
  with assms(1) show ?thesis
    by (simp add: NewEntityFromProto_legacy)
next
  case False
  with assms(1) show ?thesis
    by (simp add: NewEntityFromProto_new range_JoinKeys_Name)
qed

theorem C1_invalid_specification_is_decoded_witness:
  "Spec (proto_of scenario_C) = Some scenario_C \<and>
   EntitySpec.Name scenario_C = '''' \<and>
   EntitySpec.JoinKey scenario_C = '''' \<and>
   EntitySpec.JoinKeys scenario_C = fmempty \<and>
   (\<exists>entity. NewEntityFromProto [] (Some (proto_of scenario_C)) = Inr entity \<and>
      Entity.Name entity = '''' \<and>
      Entity.JoinKeys entity = fmupd '''' UNSPECIFIED fmempty)"
proof -
  have h1: "Spec (proto_of scenario_C) = Some scenario_C"
    by (rule Spec_proto_of)
  have h2: "EntitySpec.Name scenario_C = '''' \<or>
            (EntitySpec.JoinKey scenario_C = '''' \<and> EntitySpec.JoinKeys scenario_C = fmempty)"
    by (simp add: scenario_C_def)
  from C1_invalid_specification_is_decoded [OF h1 h2, of "[]"] h1 show ?thesis
    by (simp add: scenario_C_def)
qed

subsection \<open>The new join-keys mapping\<close>

text \<open>
  Claim C2: for every specification whose join-keys mapping is non-empty, decoding returns
  an entity whose join keys equal that mapping exactly: the same key set, and each key
  mapped to the value type its entry declares. This holds whatever the deprecated pair
  contains, also when the legacy key names a key of the mapping, and whatever order the
  entries are visited in.
\<close>

theorem C2_new_mapping_is_copied:
  assumes "Spec p = Some spec"
    and "EntitySpec.JoinKeys spec \<noteq> fmempty"
    and "ranges_over kvs (EntitySpec.JoinKeys spec)"
  shows "\<exists>entity. NewEntityFromProto kvs (Some p) = Inr entity \<and>
           fmdom (Entity.JoinKeys entity) = fmdom (EntitySpec.JoinKeys spec) \<and>
           (\<forall>k. fmlookup (Entity.JoinKeys entity) k =
                  map_option JoinKeySpec.ValueType (fmlookup (EntitySpec.JoinKeys spec) k))"
  using NewEntityFromProto_new_ranged [OF assms] by simp

theorem C2_new_mapping_is_copied_witness:
  "Spec (proto_of scenario_collision) = Some scenario_collision \<and>
   EntitySpec.JoinKeys scenario_collision \<noteq> fmempty \<and>
   ranges_over (rev entries_B) (EntitySpec.JoinKeys scenario_collision) \<and>
   EntitySpec.JoinKey scenario_collision = ''driver_id'' \<and>
   EntitySpec.ValueType scenario_collision = STRING \<and>
   (\<exists>entity. NewEntityFromProto (rev entries_B) (Some (proto_of scenario_collision)) = Inr entity \<and>
      fmdom (Entity.JoinKeys entity) = {|''driver_id'', ''rider_id''|} \<and>
      fmlookup (Entity.JoinKeys entity) ''driver_id'' = Some INT64 \<and>
      fmlookup (Entity.JoinKeys entity) ''rider_id'' = Some STRING)"
proof -
  have h1: "Spec (proto_of scenario_collision) = Some scenario_collision"
    by (rule Spec_proto_of)
  have h2: "EntitySpec.JoinKeys scenario_collision \<noteq> fmempty"
    using entries_B_nonempty by (simp add: scenario_collision_def)
  have h3: "ranges_over (rev entries_B) (EntitySpec.JoinKeys scenario_collision)"
    using ranges_over_rev_entries_B by (simp add: scenario_collision_def)
  from C2_new_mapping_is_copied [OF h1 h2 h3] obtain entity where
    r: "NewEntityFromProto (rev entries_B) (Some (proto_of scenario_collision)) = Inr entity"
    and d: "fmdom (Entity.JoinKeys entity) = fmdom (EntitySpec.JoinKeys scenario_collision)"
    and l: "\<And>k. fmlookup (Entity.JoinKeys entity) k =
              map_option JoinKeySpec.ValueType
                (fmlookup (EntitySpec.JoinKeys scenario_collision) k)"
    by blast
  have "fmdom (Entity.JoinKeys entity) = {|''driver_id'', ''rider_id''|}"
    using d by (simp add: scenario_collision_def entries_B_def)
  moreover have "fmlookup (Entity.JoinKeys entity) ''driver_id'' = Some INT64"
    by (simp add: l scenario_collision_def entries_B_def)
  moreover have "fmlookup (Entity.JoinKeys entity) ''rider_id'' = Some STRING"
    by (simp add: l scenario_collision_def entries_B_def)
  moreover have "EntitySpec.JoinKey scenario_collision = ''driver_id''"
    and "EntitySpec.ValueType scenario_collision = STRING"
    by (simp_all add: scenario_collision_def)
  ultimately show ?thesis
    using h1 h2 h3 r by blast
qed

subsection \<open>The legacy pair\<close>

text \<open>
  Claim C3: for every specification whose join-keys mapping is empty and whose legacy
  pair is non-empty, decoding returns an entity whose join keys are exactly the single
  entry from the legacy join-key name to the legacy value type, the type being the one
  in the \<^verbatim>\<open>value_type\<close> field. The theorem asks nothing of the legacy pair: the
  conclusion holds for the non-empty pairs of the claim and for the others too.
\<close>

theorem C3_legacy_pair_is_used:
  assumes "Spec p = Some spec"
    and "EntitySpec.JoinKeys spec = fmempty"
  shows "\<exists>entity. NewEntityFromProto kvs (Some p) = Inr entity \<and>
           Entity.JoinKeys entity =
             fmupd (EntitySpec.JoinKey spec) (EntitySpec.ValueType spec) fmempty"
  using NewEntityFromProto_legacy [OF assms] by simp

theorem C3_legacy_pair_is_used_witness:
  "Spec (proto_of scenario_A) = Some scenario_A \<and>
   EntitySpec.JoinKeys scenario_A = fmempty \<and>
   EntitySpec.JoinKey scenario_A \<noteq> '''' \<and>
   (\<exists>entity. NewEntityFromProto [] (Some (proto_of scenario_A)) = Inr entity \<and>
      Entity.JoinKeys entity = fmupd ''driver_id'' INT64 fmempty)"
proof -
  have h1: "Spec (proto_of scenario_A) = Some scenario_A"
    by (rule Spec_proto_of)
  have h2: "EntitySpec.JoinKeys scenario_A = fmempty"
    by (simp add: scenario_A_def)
  from C3_legacy_pair_is_used [OF h1 h2, of "[]"] h1 h2 show ?thesis
    by (simp add: scenario_A_def)
qed

subsection \<open>What every decoded entity satisfies\<close>

text \<open>
  Claim C4: for every specification on which decoding succeeds, the join keys of the
  returned entity are non-empty: there is at least one join key, with a value type.
\<close>

theorem C4_joinKeys_nonempty:
  assumes "Spec p = Some spec"
    and "ranges_over kvs (EntitySpec.JoinKeys spec)"
    and "NewEntityFromProto kvs (Some p) = Inr entity"
  shows "Entity.JoinKeys entity \<noteq> fmempty \<and>
         (\<exists>k vt. fmlookup (Entity.JoinKeys entity) k = Some vt)"
proof (cases "EntitySpec.JoinKeys spec = fmempty")
  case True
  from NewEntityFromProto_legacy [OF assms(1) True, of kvs] assms(3)
  have "Entity.JoinKeys entity =
          fmupd (EntitySpec.JoinKey spec) (EntitySpec.ValueType spec) fmempty"
    by auto
  then have "fmlookup (Entity.JoinKeys entity) (EntitySpec.JoinKey spec) =
               Some (EntitySpec.ValueType spec)"
    by simp
  then show ?thesis by force
next
  case False
  then obtain k joinKeySpec where "fmlookup (EntitySpec.JoinKeys spec) k = Some joinKeySpec"
    by (metis fmap_ext fmempty_lookup not_None_eq)
  moreover from NewEntityFromProto_new_ranged [OF assms(1) False assms(2)] assms(3)
  have "Entity.JoinKeys entity = fmmap JoinKeySpec.ValueType (EntitySpec.JoinKeys spec)"
    by auto
  ultimately have "fmlookup (Entity.JoinKeys entity) k =
                     Some (JoinKeySpec.ValueType joinKeySpec)"
    by simp
  then show ?thesis by force
qed

theorem C4_joinKeys_nonempty_witness:
  "Spec (proto_of scenario_B) = Some scenario_B \<and>
   ranges_over entries_B (EntitySpec.JoinKeys scenario_B) \<and>
   NewEntityFromProto entries_B (Some (proto_of scenario_B)) =
     Inr \<lparr>Entity.Name = ''trip'', JoinKey = '''',
          JoinKeys = fmupd ''rider_id'' STRING (fmupd ''driver_id'' INT64 fmempty)\<rparr> \<and>
   fmupd ''rider_id'' STRING (fmupd ''driver_id'' INT64 fmempty) \<noteq> fmempty \<and>
   (\<exists>k vt. fmlookup (fmupd ''rider_id'' STRING (fmupd ''driver_id'' INT64 fmempty)) k = Some vt)"
proof -
  have h1: "Spec (proto_of scenario_B) = Some scenario_B"
    by (rule Spec_proto_of)
  have h2: "ranges_over entries_B (EntitySpec.JoinKeys scenario_B)"
    using ranges_over_entries_B by (simp add: scenario_B_def)
  have h3: "NewEntityFromProto entries_B (Some (proto_of scenario_B)) =
     Inr \<lparr>Entity.Name = ''trip'', JoinKey = '''',
          JoinKeys = fmupd ''rider_id'' STRING (fmupd ''driver_id'' INT64 fmempty)\<rparr>"
    by (simp add: NewEntityFromProto_def proto_of_def scenario_B_def entries_B_def len_pos_iff)
  from C4_joinKeys_nonempty [OF h1 h2 h3] h1 h2 h3 show ?thesis
    by simp
qed

text \<open>
  Claim C5: for every specification on which decoding succeeds, the name of the returned
  entity is the name of the specification, character for character.
\<close>

theorem C5_name_verbatim:
  assumes "Spec p = Some spec"
    and "NewEntityFromProto kvs (Some p) = Inr entity"
  shows "Entity.Name entity = EntitySpec.Name spec"
proof (cases "EntitySpec.JoinKeys spec = fmempty")
  case True
  from NewEntityFromProto_legacy [OF assms(1) True, of kvs] assms(2) show ?thesis
    by auto
next
  case False
  from NewEntityFromProto_new [OF assms(1) False, of kvs] assms(2) show ?thesis
    by (auto simp: range_JoinKeys_Name)
qed

theorem C5_name_verbatim_witness:
  "Spec (proto_of (scenario_A\<lparr>EntitySpec.Name := '' Driver ''\<rparr>)) =
     Some (scenario_A\<lparr>EntitySpec.Name := '' Driver ''\<rparr>) \<and>
   NewEntityFromProto [] (Some (proto_of (scenario_A\<lparr>EntitySpec.Name := '' Driver ''\<rparr>))) =
     Inr \<lparr>Entity.Name = '' Driver '', JoinKey = ''driver_id'',
          JoinKeys = fmupd ''driver_id'' INT64 fmempty\<rparr> \<and>
   Entity.Name \<lparr>Entity.Name = '' Driver '', JoinKey = ''driver_id'',
                JoinKeys = fmupd ''driver_id'' INT64 fmempty\<rparr> =
     EntitySpec.Name (scenario_A\<lparr>EntitySpec.Name := '' Driver ''\<rparr>)"
proof -
  let ?spec = "scenario_A\<lparr>EntitySpec.Name := '' Driver ''\<rparr>"
  have h1: "Spec (proto_of ?spec) = Some ?spec"
    by (rule Spec_proto_of)
  have h2: "NewEntityFromProto [] (Some (proto_of ?spec)) =
     Inr \<lparr>Entity.Name = '' Driver '', JoinKey = ''driver_id'',
          JoinKeys = fmupd ''driver_id'' INT64 fmempty\<rparr>"
    by (simp add: NewEntityFromProto_def proto_of_def scenario_A_def len_pos_iff)
  from C5_name_verbatim [OF h1 h2] h1 h2 show ?thesis
    by simp
qed

text \<open>
  Claim C10: for every specification, the deprecated \<^verbatim>\<open>JoinKey\<close> field of the returned
  entity is the legacy join-key name of the specification as it is, on the path of the
  new mapping and on the legacy path alike.
\<close>

theorem C10_legacy_JoinKey_kept:
  assumes "Spec p = Some spec"
  shows "\<exists>entity. NewEntityFromProto kvs (Some p) = Inr entity \<and>
           Entity.JoinKey entity = EntitySpec.JoinKey spec"
proof (cases "EntitySpec.JoinKeys spec = fmempty")
  case True
  from NewEntityFromProto_legacy [OF assms True, of kvs] show ?thesis
    by simp
next
  case False
  from NewEntityFromProto_new [OF assms False, of kvs] show ?thesis
    by (simp add: range_JoinKeys_JoinKey)
qed

theorem C10_legacy_JoinKey_kept_witness:
  "Spec (proto_of scenario_collision) = Some scenario_collision \<and>
   Spec (proto_of scenario_A) = Some scenario_A \<and>
   (\<exists>entity. NewEntityFromProto entries_B (Some (proto_of scenario_collision)) = Inr entity \<and>
      Entity.JoinKey entity = ''driver_id'') \<and>
   (\<exists>entity. NewEntityFromProto [] (Some (proto_of scenario_A)) = Inr entity \<and>
      Entity.JoinKey entity = ''driver_id'')"
proof -
  have h1: "Spec (proto_of scenario_collision) = Some scenario_collision"
    by (rule Spec_proto_of)
  have h2: "Spec (proto_of scenario_A) = Some scenario_A"
    by (rule Spec_proto_of)
  from C10_legacy_JoinKey_kept [OF h1, of entries_B] C10_legacy_JoinKey_kept [OF h2, of "[]"]
    h1 h2
  show ?thesis
    by (simp add: scenario_collision_def scenario_A_def)
qed

subsection \<open>Totality\<close>

text \<open>The loop with nil entries: it returns when no delivered entry is nil.\<close>

lemma range_JoinKeys_go_present:
  "range_JoinKeys_go (go_of_entries kvs) entity = Inr (range_JoinKeys kvs entity)"
proof (induction kvs entity rule: range_JoinKeys.induct)
  case (1 entity)
  show ?case by (simp add: go_of_entries_def)
next
  case (2 joinKeyName joinKeySpec rest entity)
  then show ?case by (simp add: go_of_entries_def)
qed

lemma range_JoinKeys_go_returns:
  "\<forall>k. (k, None) \<notin> set kvs \<Longrightarrow> \<exists>e. range_JoinKeys_go kvs entity = Inr e"
proof (induction kvs arbitrary: entity)
  case Nil
  show ?case by simp
next
  case (Cons kv rest)
  obtain k e where kv: "kv = (k, e)" by (cases kv)
  with Cons.prems obtain js where e: "e = Some js"
    by (cases e) auto
  from Cons.prems have "\<forall>k. (k, None) \<notin> set rest" by simp
  from Cons.IH [OF this] kv e show ?case by simp
qed

text \<open>It panics when a delivered entry is nil, wherever in the sequence the entry is.\<close>

lemma range_JoinKeys_go_nil:
  "(k, None) \<in> set kvs \<Longrightarrow> range_JoinKeys_go kvs entity = Inl NilPointerDereference"
proof (induction kvs arbitrary: entity)
  case Nil
  then show ?case by simp
next
  case (Cons kv rest)
  obtain k' e where kv: "kv = (k', e)" by (cases kv)
  show ?case
  proof (cases e)
    case None
    with kv show ?thesis by simp
  next
    case (Some js)
    with Cons.prems kv have "(k, None) \<in> set rest" by auto
    from Cons.IH [OF this] kv Some show ?thesis by simp
  qed
qed

text \<open>An enumeration of a mapping delivers a nil entry exactly when the mapping has one.\<close>

lemma ranges_over_nil_free:
  assumes "ranges_over kvs m"
  shows "nil_free m \<longleftrightarrow> (\<forall>k. (k, None) \<notin> set kvs)"
proof -
  from assms have d: "distinct (map fst kvs)" and m: "fmlookup m = map_of kvs"
    by (auto simp: ranges_over_def fmlookup_of_list)
  have "fmlookup m k = Some None \<longleftrightarrow> (k, None) \<in> set kvs" for k
    using d by (simp add: m)
  then show ?thesis
    by (simp add: nil_free_def)
qed

text \<open>
  On the messages of the specification's type, in which every entry is present, the
  function with nil entries is the function on values.
\<close>

lemma len_fmmap: "len (fmmap f m) = len m"
  by (simp add: len_def)

lemma NewEntityFromProto_go_embed:
  "NewEntityFromProto_go (go_of_entries kvs) (go_of_proto proto) = NewEntityFromProto kvs proto"
proof (cases proto)
  case None
  then show ?thesis
    by (simp add: NewEntityFromProto_go_def NewEntityFromProto_def go_of_proto_def)
next
  case (Some p)
  then show ?thesis
    by (cases "Spec p")
      (simp_all add: NewEntityFromProto_go_def NewEntityFromProto_def go_of_proto_def
        go_of_spec_def len_fmmap range_JoinKeys_go_present Let_def)
qed

lemma ranges_over_go_of_entries:
  assumes "ranges_over kvs m"
  shows "ranges_over (go_of_entries kvs) (fmmap Some m)"
proof -
  from assms have d: "distinct (map fst kvs)" and m: "fmap_of_list kvs = m"
    by (simp_all add: ranges_over_def)
  have fst: "map fst (go_of_entries kvs) = map fst kvs"
    by (simp add: go_of_entries_def case_prod_unfold)
  have "fmap_of_list (go_of_entries kvs) = fmmap Some (fmap_of_list kvs)"
    by (rule fmap_ext) (simp add: go_of_entries_def fmlookup_of_list map_of_map)
  with d m fst show ?thesis
    by (simp add: ranges_over_def)
qed

lemma nil_free_fmmap_Some: "nil_free (fmmap Some m)"
  by (auto simp: nil_free_def)

text \<open>The arguments on which the function panics: a nil pointer somewhere.\<close>

lemma NewEntityFromProto_go_panics_iff:
  assumes "\<forall>p spec. proto = Some p \<and> go_Spec p = Some spec \<longrightarrow>
             ranges_over kvs (go_JoinKeys spec)"
  shows "NewEntityFromProto_go kvs proto = Inl NilPointerDereference \<longleftrightarrow>
           proto = None \<or>
           (\<exists>p. proto = Some p \<and>
              (go_Spec p = None \<or> (\<exists>spec. go_Spec p = Some spec \<and> \<not> nil_free (go_JoinKeys spec))))"
proof (cases proto)
  case None
  then show ?thesis by (simp add: NewEntityFromProto_go_def)
next
  case (Some p)
  show ?thesis
  proof (cases "go_Spec p")
    case None
    with Some show ?thesis by (simp add: NewEntityFromProto_go_def)
  next
    case spec: (Some spec)
    with Some assms have r: "ranges_over kvs (go_JoinKeys spec)" by simp
    show ?thesis
    proof (cases "go_JoinKeys spec = fmempty")
      case True
      then have "nil_free (go_JoinKeys spec)" by (simp add: nil_free_def)
      with Some spec True show ?thesis
        by (simp add: NewEntityFromProto_go_def len_pos_iff)
    next
      case False
      let ?e0 = "\<lparr>Entity.Name = go_Name spec, JoinKey = go_JoinKey spec,
                  JoinKeys = fmempty\<rparr> :: 'a Entity"
      have run: "NewEntityFromProto_go kvs proto = range_JoinKeys_go kvs ?e0"
        using Some spec False by (simp add: NewEntityFromProto_go_def len_pos_iff)
      have "range_JoinKeys_go kvs ?e0 = Inl NilPointerDereference \<longleftrightarrow>
              \<not> nil_free (go_JoinKeys spec)"
      proof (cases "nil_free (go_JoinKeys spec)")
        case True
        with ranges_over_nil_free [OF r] have "\<forall>k. (k, None) \<notin> set kvs" by simp
        from range_JoinKeys_go_returns [OF this, of ?e0] True show ?thesis by auto
      next
        case False
        with ranges_over_nil_free [OF r] obtain k where "(k, None) \<in> set kvs" by auto
        from range_JoinKeys_go_nil [OF this, of ?e0] False show ?thesis by simp
      qed
      with run Some spec show ?thesis by simp
    qed
  qed
qed

text \<open>
  Claim C6, as stated: the function is total and has no error path; for every input it
  returns an entity.

  The function has no error result, but it has inputs on which it does not return. A
  message that carries a specification whose mapping has a nil entry makes line 25
  panic, here after the first entry has been copied.
\<close>

theorem C6_nil_entry_panics:
  "go_Spec \<lparr>go_Spec = Some scenario_nil_entry\<rparr> = Some scenario_nil_entry \<and>
   ranges_over entries_nil (go_JoinKeys scenario_nil_entry) \<and>
   NewEntityFromProto_go entries_nil (Some \<lparr>go_Spec = Some scenario_nil_entry\<rparr>) =
     Inl NilPointerDereference"
  by (simp add: NewEntityFromProto_go_def scenario_nil_entry_def entries_nil_def
      ranges_over_def len_pos_iff)

text \<open>
  Claim C6, amended: the function has no error result, and it returns an entity for every
  message that carries a specification whose mapping has no nil entry, one with an empty
  name, an empty legacy join-key name and an empty mapping included; in that all-empty
  case the join keys of the returned entity are the single entry from the empty string
  to the value type of the specification.
\<close>

theorem C6_returns_without_nil:
  assumes "go_Spec p = Some spec"
    and "ranges_over kvs (go_JoinKeys spec)"
    and "nil_free (go_JoinKeys spec)"
  shows "(\<exists>entity. NewEntityFromProto_go kvs (Some p) = Inr entity) \<and>
         (go_Name spec = '''' \<and> go_JoinKey spec = '''' \<and> go_JoinKeys spec = fmempty \<longrightarrow>
            NewEntityFromProto_go kvs (Some p) =
              Inr \<lparr>Entity.Name = '''', JoinKey = '''',
                   JoinKeys = fmupd '''' (go_ValueType spec) fmempty\<rparr>)"
proof (cases "go_JoinKeys spec = fmempty")
  case True
  with assms(1) show ?thesis
    by (simp add: NewEntityFromProto_go_def len_pos_iff)
next
  case False
  let ?e0 = "\<lparr>Entity.Name = go_Name spec, JoinKey = go_JoinKey spec,
              JoinKeys = fmempty\<rparr> :: 'a Entity"
  from assms(2,3) have "\<forall>k. (k, None) \<notin> set kvs"
    by (simp add: ranges_over_nil_free)
  from range_JoinKeys_go_returns [OF this, of ?e0] assms(1) False show ?thesis
    by (simp add: NewEntityFromProto_go_def len_pos_iff)
qed

theorem C6_returns_without_nil_witness:
  "go_Spec \<lparr>go_Spec = Some (go_of_spec scenario_C)\<rparr> = Some (go_of_spec scenario_C) \<and>
   ranges_over [] (go_JoinKeys (go_of_spec scenario_C)) \<and>
   nil_free (go_JoinKeys (go_of_spec scenario_C)) \<and>
   go_Name (go_of_spec scenario_C) = '''' \<and>
   go_JoinKey (go_of_spec scenario_C) = '''' \<and>
   go_JoinKeys (go_of_spec scenario_C) = fmempty \<and>
   go_ValueType (go_of_spec scenario_C) = UNSPECIFIED \<and>
   (\<exists>entity. NewEntityFromProto_go [] (Some \<lparr>go_Spec = Some (go_of_spec scenario_C)\<rparr>) =
      Inr entity) \<and>
   NewEntityFromProto_go [] (Some \<lparr>go_Spec = Some (go_of_spec scenario_C)\<rparr>) =
     Inr \<lparr>Entity.Name = '''', JoinKey = '''', JoinKeys = fmupd '''' UNSPECIFIED fmempty\<rparr> \<and>
   go_Spec \<lparr>go_Spec = Some (go_of_spec scenario_B)\<rparr> = Some (go_of_spec scenario_B) \<and>
   ranges_over (go_of_entries entries_B) (go_JoinKeys (go_of_spec scenario_B)) \<and>
   nil_free (go_JoinKeys (go_of_spec scenario_B)) \<and>
   (\<exists>entity. NewEntityFromProto_go (go_of_entries entries_B)
               (Some \<lparr>go_Spec = Some (go_of_spec scenario_B)\<rparr>) = Inr entity)"
proof -
  let ?C = "go_of_spec scenario_C"
  let ?B = "go_of_spec scenario_B"
  have c1: "go_Spec \<lparr>go_Spec = Some ?C\<rparr> = Some ?C"
    by simp
  have c2: "go_Name ?C = '''' \<and> go_JoinKey ?C = '''' \<and> go_JoinKeys ?C = fmempty"
    and c3: "go_ValueType ?C = UNSPECIFIED"
    by (simp_all add: go_of_spec_def scenario_C_def)
  have c4: "ranges_over [] (go_JoinKeys ?C)" and c5: "nil_free (go_JoinKeys ?C)"
    using c2 by (simp_all add: ranges_over_Nil_iff nil_free_def)
  have b1: "go_Spec \<lparr>go_Spec = Some ?B\<rparr> = Some ?B"
    by simp
  have b2: "ranges_over (go_of_entries entries_B) (go_JoinKeys ?B)"
    using ranges_over_go_of_entries [OF ranges_over_entries_B]
    by (simp add: go_of_spec_def scenario_B_def)
  have b3: "nil_free (go_JoinKeys ?B)"
    by (simp add: go_of_spec_def nil_free_fmmap_Some)
  from C6_returns_without_nil [OF c1 c4 c5] C6_returns_without_nil [OF b1 b2 b3]
    c1 c2 c3 c4 c5 b1 b2 b3
  show ?thesis
    by simp
qed

subsection \<open>Determinism\<close>

text \<open>
  Claim C7, as stated: decoding is deterministic; decoding a specification twice yields
  equal entities, and decoding an invalid specification, unmodified, always fails
  identically.

  Decoding an invalid specification does not fail. A specification with an empty name is
  decoded into an entity with an empty name, on every execution.
\<close>

theorem C7_unnamed_specification_does_not_fail:
  "EntitySpec.Name scenario_unnamed = '''' \<and>
   may_deliver (Some (proto_of scenario_unnamed)) [] \<and>
   NewEntityFromProto [] (Some (proto_of scenario_unnamed)) =
     Inr \<lparr>Entity.Name = '''', JoinKey = ''driver_id'',
          JoinKeys = fmupd ''driver_id'' INT64 fmempty\<rparr>"
  by (simp add: NewEntityFromProto_def may_deliver_def proto_of_def scenario_unnamed_def
      len_pos_iff ranges_over_Nil_iff)

text \<open>
  Claim C7, amended: decoding is deterministic; decoding a specification twice yields
  equal entities, and decoding an invalid specification, unmodified, always ends
  identically. The only freedom the Go semantics leaves is the order in which
  \<^verbatim>\<open>range\<close> visits the mapping, so two executions on the same input are two choices
  of delivered entries. Whatever the input, an invalid specification or a nil pointer
  included, the two executions end alike: in the same entity, equal in every field, or
  in the same failure.
\<close>

theorem C7_deterministic:
  assumes "may_deliver proto kvs" and "may_deliver proto kvs'"
  shows "NewEntityFromProto kvs proto = NewEntityFromProto kvs' proto"
proof (cases proto)
  case None
  then show ?thesis
    by (simp add: NewEntityFromProto_def)
next
  case (Some p)
  show ?thesis
  proof (cases "Spec p")
    case None
    with Some show ?thesis
      by (simp add: NewEntityFromProto_def)
  next
    case spec: (Some spec)
    from assms Some spec
    have r: "ranges_over kvs (EntitySpec.JoinKeys spec)"
      and r': "ranges_over kvs' (EntitySpec.JoinKeys spec)"
      by (simp_all add: may_deliver_def)
    show ?thesis
    proof (cases "EntitySpec.JoinKeys spec = fmempty")
      case True
      with Some spec show ?thesis
        by (simp add: NewEntityFromProto_legacy)
    next
      case False
      with Some spec r r' show ?thesis
        by (simp add: NewEntityFromProto_new_ranged)
    qed
  qed
qed

theorem C7_deterministic_witness:
  "may_deliver (Some (proto_of scenario_B)) entries_B \<and>
   may_deliver (Some (proto_of scenario_B)) (rev entries_B) \<and>
   entries_B \<noteq> rev entries_B \<and>
   NewEntityFromProto entries_B (Some (proto_of scenario_B)) =
     NewEntityFromProto (rev entries_B) (Some (proto_of scenario_B)) \<and>
   may_deliver (None :: (ValueType_Enum, unit) core_Entity option) entries_B \<and>
   may_deliver (None :: (ValueType_Enum, unit) core_Entity option) [] \<and>
   NewEntityFromProto entries_B (None :: (ValueType_Enum, unit) core_Entity option) =
     NewEntityFromProto [] (None :: (ValueType_Enum, unit) core_Entity option)"
proof -
  have h1: "may_deliver (Some (proto_of scenario_B)) entries_B"
    using ranges_over_entries_B by (simp add: may_deliver_def proto_of_def scenario_B_def)
  have h2: "may_deliver (Some (proto_of scenario_B)) (rev entries_B)"
    using ranges_over_rev_entries_B by (simp add: may_deliver_def proto_of_def scenario_B_def)
  have h3: "may_deliver (None :: (ValueType_Enum, unit) core_Entity option) entries_B"
    and h4: "may_deliver (None :: (ValueType_Enum, unit) core_Entity option) []"
    by (simp_all add: may_deliver_def)
  have "entries_B \<noteq> rev entries_B"
    by (simp add: entries_B_def)
  with C7_deterministic [OF h1 h2] C7_deterministic [OF h3 h4] h1 h2 h3 h4 show ?thesis
    by simp
qed

subsection \<open>The fields read\<close>

text \<open>
  Claim C8: the result depends on the four fields \<^verbatim>\<open>name\<close>, \<^verbatim>\<open>join_key\<close>,
  \<^verbatim>\<open>value_type\<close> and \<^verbatim>\<open>join_keys\<close> only. Two messages whose specifications agree
  on the four fields decode into equal entities, whatever else the messages hold (the
  \<open>more\<close> parts of the records, which may even differ in type) and in whatever order
  each mapping is visited.
\<close>

theorem C8_only_four_fields_read:
  assumes "Spec p = Some spec" and "Spec p' = Some spec'"
    and "EntitySpec.Name spec' = EntitySpec.Name spec"
    and "EntitySpec.JoinKey spec' = EntitySpec.JoinKey spec"
    and "EntitySpec.ValueType spec' = EntitySpec.ValueType spec"
    and "EntitySpec.JoinKeys spec' = EntitySpec.JoinKeys spec"
    and "ranges_over kvs (EntitySpec.JoinKeys spec)"
    and "ranges_over kvs' (EntitySpec.JoinKeys spec')"
  shows "NewEntityFromProto kvs (Some p) = NewEntityFromProto kvs' (Some p')"
proof (cases "EntitySpec.JoinKeys spec = fmempty")
  case True
  with assms show ?thesis
    by (simp add: NewEntityFromProto_legacy)
next
  case False
  with assms show ?thesis
    by (simp add: NewEntityFromProto_new_ranged)
qed

theorem C8_only_four_fields_read_witness:
  "Spec (proto_of scenario_B) = Some scenario_B \<and>
   Spec \<lparr>Spec = Some (EntitySpec.extend scenario_B ''rides''), \<dots> = True\<rparr> =
     Some (EntitySpec.extend scenario_B ''rides'') \<and>
   EntitySpec.Name (EntitySpec.extend scenario_B ''rides'') = EntitySpec.Name scenario_B \<and>
   EntitySpec.JoinKey (EntitySpec.extend scenario_B ''rides'') = EntitySpec.JoinKey scenario_B \<and>
   EntitySpec.ValueType (EntitySpec.extend scenario_B ''rides'') =
     EntitySpec.ValueType scenario_B \<and>
   EntitySpec.JoinKeys (EntitySpec.extend scenario_B ''rides'') =
     EntitySpec.JoinKeys scenario_B \<and>
   ranges_over entries_B (EntitySpec.JoinKeys scenario_B) \<and>
   ranges_over (rev entries_B) (EntitySpec.JoinKeys (EntitySpec.extend scenario_B ''rides'')) \<and>
   NewEntityFromProto entries_B (Some (proto_of scenario_B)) =
     NewEntityFromProto (rev entries_B)
       (Some \<lparr>Spec = Some (EntitySpec.extend scenario_B ''rides''), \<dots> = True\<rparr>)"
proof -
  let ?spec' = "EntitySpec.extend scenario_B ''rides''"
  let ?p' = "\<lparr>Spec = Some ?spec', \<dots> = True\<rparr>"
  have h1: "Spec (proto_of scenario_B) = Some scenario_B"
    by (rule Spec_proto_of)
  have h2: "Spec ?p' = Some ?spec'"
    by simp
  have h3: "EntitySpec.Name ?spec' = EntitySpec.Name scenario_B"
    and h4: "EntitySpec.JoinKey ?spec' = EntitySpec.JoinKey scenario_B"
    and h5: "EntitySpec.ValueType ?spec' = EntitySpec.ValueType scenario_B"
    and h6: "EntitySpec.JoinKeys ?spec' = EntitySpec.JoinKeys scenario_B"
    by (simp_all add: EntitySpec.defs)
  have h7: "ranges_over entries_B (EntitySpec.JoinKeys scenario_B)"
    using ranges_over_entries_B by (simp add: scenario_B_def)
  have h8: "ranges_over (rev entries_B) (EntitySpec.JoinKeys ?spec')"
    unfolding h6 using ranges_over_rev_entries_B by (simp add: scenario_B_def)
  from C8_only_four_fields_read [OF h1 h2 h3 h4 h5 h6 h7 h8] h1 h2 h3 h4 h5 h6 h7 h8
  show ?thesis
    by simp
qed

subsection \<open>Effects on the store\<close>

text \<open>
  The loop on the store, when the entity refers to a map at \<open>m\<close>: it does not panic, and
  the store it leaves differs from the one it started in at the map \<open>m\<close> alone, which
  holds what the loop on values computes.
\<close>

lemma range_JoinKeys_st_eq:
  assumes "entity_JoinKeys (Entity_heap h entity) = Some m"
  shows "range_JoinKeys_st kvs entity h =
           Inr (h\<lparr>ValueType_maps := (ValueType_maps h)
                  (m := Entity.JoinKeys
                          (range_JoinKeys kvs
                             \<lparr>Entity.Name = n, JoinKey = j, JoinKeys = ValueType_maps h m\<rparr>))\<rparr>)"
  using assms
proof (induction kvs arbitrary: h)
  case Nil
  show ?case by simp
next
  case (Cons kv rest)
  obtain joinKeyName joinKeySpec where kv: "kv = (joinKeyName, joinKeySpec)"
    by (cases kv)
  let ?v = "JoinKeySpec.ValueType joinKeySpec"
  let ?h1 = "h\<lparr>ValueType_maps := (ValueType_maps h)
               (m := fmupd joinKeyName ?v (ValueType_maps h m))\<rparr>"
  have step: "assign_JoinKeys entity joinKeyName ?v h = Inr ?h1"
    using Cons.prems by (simp add: assign_JoinKeys_def)
  have "entity_JoinKeys (Entity_heap ?h1 entity) = Some m"
    using Cons.prems by simp
  then have ih: "range_JoinKeys_st rest entity ?h1 =
      Inr (?h1\<lparr>ValueType_maps := (ValueType_maps ?h1)
             (m := Entity.JoinKeys
                     (range_JoinKeys rest
                        \<lparr>Entity.Name = n, JoinKey = j, JoinKeys = ValueType_maps ?h1 m\<rparr>))\<rparr>)"
    by (rule Cons.IH)
  let ?x = "Entity.JoinKeys
              (range_JoinKeys rest
                 \<lparr>Entity.Name = n, JoinKey = j, JoinKeys = ValueType_maps ?h1 m\<rparr>)"
  have twice: "?h1\<lparr>ValueType_maps := (ValueType_maps ?h1)(m := ?x)\<rparr> =
               h\<lparr>ValueType_maps := (ValueType_maps h)(m := ?x)\<rparr>"
    by simp
  have x: "?x = Entity.JoinKeys
                  (range_JoinKeys (kv # rest)
                     \<lparr>Entity.Name = n, JoinKey = j, JoinKeys = ValueType_maps h m\<rparr>)"
    by (simp add: kv)
  have "range_JoinKeys_st (kv # rest) entity h = range_JoinKeys_st rest entity ?h1"
    by (simp add: kv step)
  also have "\<dots> = Inr (h\<lparr>ValueType_maps := (ValueType_maps h)(m := ?x)\<rparr>)"
    using ih twice by (rule trans [OF _ arg_cong])
  finally show ?case
    by (simp only: x)
qed

text \<open>The message read through a pointer to a struct that carries a specification.\<close>

lemma proto_at_Some:
  assumes "Spec_ptr (core_Entity_heap h p) = Some s"
  shows "proto_at h (Some p) = Some \<lparr>Spec = Some (spec_at h s)\<rparr>"
  using assms by (simp add: proto_at_def)

text \<open>
  The call on a store in which the message carries a specification: the store after the
  call is the store before it with two more objects, a map at the first free address
  and an entity at the next one, which together hold the entity that the function on
  values returns.
\<close>

lemma NewEntityFromProto_st_eq:
  assumes "Spec_ptr (core_Entity_heap h p) = Some s"
  shows "\<exists>e. NewEntityFromProto kvs (proto_at h (Some p)) = Inr e \<and>
           NewEntityFromProto_st kvs (Some p) h =
             Inr (Suc (lim h),
                  h\<lparr>ValueType_maps := (ValueType_maps h)(lim h := Entity.JoinKeys e),
                    Entity_heap := (Entity_heap h)
                       (Suc (lim h) :=
                          \<lparr>entity_Name = Entity.Name e, entity_JoinKey = Entity.JoinKey e,
                           entity_JoinKeys = Some (lim h)\<rparr>),
                    lim := Suc (Suc (lim h))\<rparr>)"
proof -
  let ?spec = "spec_at h s"
  let ?obj = "\<lparr>entity_Name = EntitySpec.Name ?spec, entity_JoinKey = EntitySpec.JoinKey ?spec,
               entity_JoinKeys = Some (lim h)\<rparr>"
  let ?h2 = "h\<lparr>ValueType_maps := (ValueType_maps h)(lim h := fmempty),
               Entity_heap := (Entity_heap h)(Suc (lim h) := ?obj),
               lim := Suc (Suc (lim h))\<rparr>"
  let ?e0 = "\<lparr>Entity.Name = EntitySpec.Name ?spec, JoinKey = EntitySpec.JoinKey ?spec,
              JoinKeys = fmempty\<rparr> :: 'a Entity"
  have p: "Spec (the (proto_at h (Some p))) = Some ?spec"
    and p': "proto_at h (Some p) = Some (the (proto_at h (Some p)))"
    by (simp_all add: proto_at_Some [OF assms])
  have st: "NewEntityFromProto_st kvs (Some p) h =
      (if EntitySpec.JoinKeys ?spec \<noteq> fmempty
       then map_sum id (Pair (Suc (lim h))) (range_JoinKeys_st kvs (Suc (lim h)) ?h2)
       else map_sum id (Pair (Suc (lim h)))
              (assign_JoinKeys (Suc (lim h)) (EntitySpec.JoinKey ?spec)
                 (EntitySpec.ValueType ?spec) ?h2))"
    using assms
    by (simp add: NewEntityFromProto_st_def make_map_def new_Entity_def spec_at_def len_pos_iff)
  have ref: "entity_JoinKeys (Entity_heap ?h2 (Suc (lim h))) = Some (lim h)"
    by simp
  show ?thesis
  proof (cases "EntitySpec.JoinKeys ?spec = fmempty")
    case True
    have "NewEntityFromProto kvs (proto_at h (Some p)) =
            Inr (?e0\<lparr>Entity.JoinKeys :=
                   fmupd (EntitySpec.JoinKey ?spec) (EntitySpec.ValueType ?spec) fmempty\<rparr>)"
      using NewEntityFromProto_legacy [OF p True, of kvs] p' by simp
    moreover have "NewEntityFromProto_st kvs (Some p) h =
            Inr (Suc (lim h),
                 ?h2\<lparr>ValueType_maps := (ValueType_maps ?h2)
                        (lim h := fmupd (EntitySpec.JoinKey ?spec) (EntitySpec.ValueType ?spec)
                                    (ValueType_maps ?h2 (lim h)))\<rparr>)"
      using True ref by (simp add: st assign_JoinKeys_def)
    ultimately show ?thesis
      by simp
  next
    case False
    have "NewEntityFromProto kvs (proto_at h (Some p)) = Inr (range_JoinKeys kvs ?e0)"
      using NewEntityFromProto_new [OF p False, of kvs] p' by simp
    moreover have "NewEntityFromProto_st kvs (Some p) h =
            map_sum id (Pair (Suc (lim h))) (range_JoinKeys_st kvs (Suc (lim h)) ?h2)"
      using False by (simp add: st)
    then have "NewEntityFromProto_st kvs (Some p) h =
            Inr (Suc (lim h),
                 ?h2\<lparr>ValueType_maps := (ValueType_maps ?h2)
                        (lim h := Entity.JoinKeys
                                    (range_JoinKeys kvs
                                       \<lparr>Entity.Name = EntitySpec.Name ?spec,
                                        JoinKey = EntitySpec.JoinKey ?spec,
                                        JoinKeys = ValueType_maps ?h2 (lim h)\<rparr>))\<rparr>)"
      by (simp only: map_sum.simps id_apply
            range_JoinKeys_st_eq [OF ref, where n = "EntitySpec.Name ?spec"
              and j = "EntitySpec.JoinKey ?spec"])
    ultimately show ?thesis
      by (simp add: range_JoinKeys_Name range_JoinKeys_JoinKey)
  qed
qed

text \<open>
  The function on values is what the function on the store computes, for every store
  and every argument: the same panic, or the entity found at the returned address.
\<close>

lemma NewEntityFromProto_st_refines:
  "NewEntityFromProto kvs (proto_at h proto) =
     map_sum id (\<lambda>(entity, h'). entity_at h' entity) (NewEntityFromProto_st kvs proto h)"
proof (cases proto)
  case None
  then show ?thesis
    by (simp add: NewEntityFromProto_def NewEntityFromProto_st_def proto_at_def)
next
  case (Some p)
  show ?thesis
  proof (cases "Spec_ptr (core_Entity_heap h p)")
    case None
    with Some show ?thesis
      by (simp add: NewEntityFromProto_def NewEntityFromProto_st_def proto_at_def)
  next
    case (Some s)
    from NewEntityFromProto_st_eq [OF this, of kvs] \<open>proto = Some p\<close> show ?thesis
      by (auto simp: entity_at_def read_map_def)
  qed
qed

text \<open>
  Claim C9: for every specification, decoding leaves the specification unchanged, each of
  its four fields being after the call what it was before, and has no other effect. On
  the store, the call returns, and every object of the message is as it was: the message
  struct, the specification struct and the mapping it refers to. So is every entity and
  every entity map that was allocated before the call. The one effect is the allocation
  of the two objects of the result. The source calls nothing but the builtins
  \<^verbatim>\<open>make\<close> and \<^verbatim>\<open>len\<close>, so the store is all there is to change.
\<close>

theorem C9_input_unchanged:
  fixes h :: "'vt store"
  assumes "Spec_ptr (core_Entity_heap h p) = Some s"
  shows "\<exists>entity h'. NewEntityFromProto_st kvs (Some p) h = Inr (entity, h') \<and>
           spec_at h' s = spec_at h s \<and>
           core_Entity_heap h' = core_Entity_heap h \<and>
           EntitySpec_heap h' = EntitySpec_heap h \<and>
           JoinKeySpec_maps h' = JoinKeySpec_maps h \<and>
           (\<forall>a<lim h. Entity_heap h' a = Entity_heap h a \<and>
                      ValueType_maps h' a = ValueType_maps h a) \<and>
           lim h' = lim h + 2"
proof -
  from NewEntityFromProto_st_eq [OF assms, of kvs] obtain e :: "'vt Entity" where
    "NewEntityFromProto_st kvs (Some p) h =
       Inr (Suc (lim h),
            h\<lparr>ValueType_maps := (ValueType_maps h)(lim h := Entity.JoinKeys e),
              Entity_heap := (Entity_heap h)
                 (Suc (lim h) :=
                    \<lparr>entity_Name = Entity.Name e, entity_JoinKey = Entity.JoinKey e,
                     entity_JoinKeys = Some (lim h)\<rparr>),
              lim := Suc (Suc (lim h))\<rparr>)"
    by blast
  then show ?thesis
    by (simp add: spec_at_def)
qed

theorem C9_input_unchanged_witness:
  "Spec_ptr (core_Entity_heap store_B 0) = Some 1 \<and>
   spec_at store_B 1 = scenario_B \<and>
   (\<exists>entity h'. NewEntityFromProto_st entries_B (Some 0) store_B = Inr (entity, h') \<and>
      spec_at h' 1 = scenario_B \<and>
      core_Entity_heap h' = core_Entity_heap store_B \<and>
      EntitySpec_heap h' = EntitySpec_heap store_B \<and>
      JoinKeySpec_maps h' = JoinKeySpec_maps store_B \<and>
      Entity_heap h' 4 = Entity_heap store_B 4 \<and>
      ValueType_maps h' 3 = ValueType_maps store_B 3 \<and>
      lim h' = 7)"
proof -
  have h1: "Spec_ptr (core_Entity_heap store_B 0) = Some 1"
    by (simp add: store_B_def)
  have h2: "spec_at store_B 1 = scenario_B"
    by (simp add: store_B_def spec_at_def scenario_B_def read_map_def)
  have h3: "lim store_B = 5"
    by (simp add: store_B_def)
  from C9_input_unchanged [OF h1, of entries_B] obtain entity h' where
    "NewEntityFromProto_st entries_B (Some 0) store_B = Inr (entity, h')"
    "spec_at h' 1 = spec_at store_B 1"
    "core_Entity_heap h' = core_Entity_heap store_B"
    "EntitySpec_heap h' = EntitySpec_heap store_B"
    "JoinKeySpec_maps h' = JoinKeySpec_maps store_B"
    "\<forall>a<lim store_B. Entity_heap h' a = Entity_heap store_B a \<and>
                        ValueType_maps h' a = ValueType_maps store_B a"
    "lim h' = lim store_B + 2"
    by blast
  with h1 h2 h3 show ?thesis
    by simp
qed

end
